theory Spec2Isabelle
  imports Main
begin

section \<open>The directory table (filesys/directory.cc)\<close>

text \<open>
  A C string is modelled by the list of its characters before the terminating NUL.
  \<open>strncmp a b n = 0\<close> holds exactly when the two strings agree on their first \<open>n\<close>
  characters, and \<open>strncpy dst src n\<close> leaves the first \<open>n\<close> characters of \<open>src\<close>
  in \<open>dst\<close> (the byte after them is never written by this code and stays NUL).
\<close>

definition strncmp_eq :: "string \<Rightarrow> string \<Rightarrow> nat \<Rightarrow> bool" where
  "strncmp_eq a b n = (take n a = take n b)"

definition strncpy :: "string \<Rightarrow> nat \<Rightarrow> string" where
  "strncpy src n = take n src"

text \<open>
  Modelled from the spec: the maximum name length \<open>FileNameMaxLen\<close> is declared in
  directory.h, which is not among the sources. The spec only says that names are bounded
  and compared at a fixed length; the value is the one the \<open>folder[10][10]\<close> buffers of
  filesys.cc are sized for (nine characters and a terminator).
\<close>

definition FileNameMaxLen :: nat where
  "FileNameMaxLen = 9"

record DirectoryEntry =
  inUse :: bool
  isDir :: bool
  sector :: int
  name :: string

text \<open>
  A \<open>Directory\<close> object is its \<open>table\<close>; \<open>tableSize\<close> is the length of the list.
  The constructor clears the whole table (\<open>memset\<close>) and marks every entry unused.
\<close>

definition Directory :: "nat \<Rightarrow> DirectoryEntry list" where
  "Directory n =
     replicate n \<lparr>inUse = False, isDir = False, sector = 0, name = []\<rparr>"

text \<open>
  \<open>FindIndex\<close>: the scan \<open>for (i = 0; i < tableSize; i++)\<close>; the second argument of
  the helper is the index of the head of the remaining table.
\<close>

fun FindIndex_from :: "DirectoryEntry list \<Rightarrow> string \<Rightarrow> int \<Rightarrow> int" where
  "FindIndex_from [] nm i = -1"
| "FindIndex_from (e # es) nm i =
     (if inUse e \<and> strncmp_eq (name e) nm FileNameMaxLen then i
      else FindIndex_from es nm (i + 1))"

definition Directory_FindIndex :: "DirectoryEntry list \<Rightarrow> string \<Rightarrow> int" where
  "Directory_FindIndex table nm = FindIndex_from table nm 0"

definition Directory_Find :: "DirectoryEntry list \<Rightarrow> string \<Rightarrow> int" where
  "Directory_Find table nm =
     (let i = Directory_FindIndex table nm
      in if i \<noteq> -1 then sector (table ! nat i) else -1)"

text \<open>
  \<open>Add\<close>: after the duplicate check, the scan for the first entry that is not in use;
  that entry gets the four fields written, in the order of the source.
\<close>

fun Add_scan ::
  "DirectoryEntry list \<Rightarrow> string \<Rightarrow> int \<Rightarrow> bool \<Rightarrow> bool \<times> DirectoryEntry list" where
  "Add_scan [] nm newSector dir = (False, [])"
| "Add_scan (e # es) nm newSector dir =
     (if \<not> inUse e
      then (True,
            e\<lparr>inUse := True, isDir := dir,
              name := strncpy nm FileNameMaxLen, sector := newSector\<rparr> # es)
      else (fst (Add_scan es nm newSector dir), e # snd (Add_scan es nm newSector dir)))"

definition Directory_Add ::
  "DirectoryEntry list \<Rightarrow> string \<Rightarrow> int \<Rightarrow> bool \<Rightarrow> bool \<times> DirectoryEntry list" where
  "Directory_Add table nm newSector dir =
     (if Directory_FindIndex table nm \<noteq> -1 then (False, table)
      else Add_scan table nm newSector dir)"

definition Directory_Remove ::
  "DirectoryEntry list \<Rightarrow> string \<Rightarrow> bool \<times> DirectoryEntry list" where
  "Directory_Remove table nm =
     (let i = Directory_FindIndex table nm
      in if i = -1 then (False, table)
         else (True, table[nat i := (table ! nat i)\<lparr>inUse := False, isDir := False\<rparr>]))"

text \<open>\<open>isDirectory\<close> checks the index against the table size.\<close>

definition Directory_isDirectory :: "DirectoryEntry list \<Rightarrow> nat \<Rightarrow> bool" where
  "Directory_isDirectory table index =
     (if index < length table then isDir (table ! index) else False)"

text \<open>
  Modelled from the spec: \<open>inUseIndex\<close> and \<open>getIndexName\<close>, which RecurRemoveDirectory
  calls, are declared in directory.h, which is not among the sources. The spec has the
  removal "iterate every in-use entry" and address each by its name: they read the flag
  and the name of the entry at the index.
\<close>

definition Directory_inUseIndex :: "DirectoryEntry list \<Rightarrow> nat \<Rightarrow> bool" where
  "Directory_inUseIndex table index = inUse (table ! index)"

definition Directory_getIndexName :: "DirectoryEntry list \<Rightarrow> nat \<Rightarrow> string" where
  "Directory_getIndexName table index = name (table ! index)"

subsection \<open>Notions the statements about the table use\<close>

text \<open>An entry matches a name when it is in use and the fixed-length comparison succeeds.\<close>

definition matches :: "string \<Rightarrow> DirectoryEntry \<Rightarrow> bool" where
  "matches nm e = (inUse e \<and> strncmp_eq (name e) nm FileNameMaxLen)"

text \<open>The index of the first entry that is not in use, if there is one.\<close>

fun first_unused :: "DirectoryEntry list \<Rightarrow> nat option" where
  "first_unused [] = None"
| "first_unused (e # es) =
     (if \<not> inUse e then Some 0 else map_option Suc (first_unused es))"

text \<open>The entry \<open>Add\<close> leaves in the slot it occupies.\<close>

definition new_entry :: "string \<Rightarrow> int \<Rightarrow> bool \<Rightarrow> DirectoryEntry" where
  "new_entry nm newSector dir =
     \<lparr>inUse = True, isDir = dir, sector = newSector, name = take FileNameMaxLen nm\<rparr>"

text \<open>
  The table invariant of the data model: the names of the entries in use are pairwise
  different under the fixed-length comparison, and no more entries are in use than the
  table has slots. The capacity is a parameter: it is fixed at construction.
\<close>

definition names_unique :: "DirectoryEntry list \<Rightarrow> bool" where
  "names_unique table =
     (\<forall>i < length table. \<forall>j < length table.
        inUse (table ! i) \<and> inUse (table ! j) \<and>
        strncmp_eq (name (table ! i)) (name (table ! j)) FileNameMaxLen \<longrightarrow> i = j)"

definition in_use_count :: "DirectoryEntry list \<Rightarrow> nat" where
  "in_use_count table = length (filter inUse table)"

definition table_inv :: "nat \<Rightarrow> DirectoryEntry list \<Rightarrow> bool" where
  "table_inv capacity table =
     (length table = capacity \<and> names_unique table \<and> in_use_count table \<le> capacity)"

text \<open>A run of \<open>Add\<close> calls: the results in order, and the table they leave.\<close>

fun Add_all ::
  "DirectoryEntry list \<Rightarrow> (string \<times> int \<times> bool) list \<Rightarrow> bool list \<times> DirectoryEntry list" where
  "Add_all table [] = ([], table)"
| "Add_all table ((nm, s, d) # rest) =
     (let r = Directory_Add table nm s d;
          rs = Add_all (snd r) rest
      in (fst r # fst rs, snd rs))"

text \<open>
  The entry a successful \<open>Add\<close> of a (name, sector, flag) triple leaves, and the entry of
  a slot the constructor has cleared.
\<close>

definition entry_of :: "string \<times> int \<times> bool \<Rightarrow> DirectoryEntry" where
  "entry_of e = new_entry (fst e) (fst (snd e)) (snd (snd e))"

definition unused_entry :: DirectoryEntry where
  "unused_entry = \<lparr>inUse = False, isDir = False, sector = 0, name = []\<rparr>"

text \<open>A small table and a list of names, for concrete runs.\<close>

definition demo_table :: "DirectoryEntry list" where
  "demo_table =
     [\<lparr>inUse = True, isDir = False, sector = 5, name = ''a''\<rparr>,
      \<lparr>inUse = True, isDir = True, sector = 7, name = ''b''\<rparr>,
      \<lparr>inUse = False, isDir = False, sector = 0, name = []\<rparr>]"

definition demo_names :: "(string \<times> int \<times> bool) list" where
  "demo_names = [(''x'', 11, False), (''y'', 12, True), (''z'', 13, False)]"

section \<open>The disk and the collaborators of the file system\<close>

text \<open>
  Modelled from the spec: disk.h, bitmap.cc, pbitmap.cc, filehdr.cc and openfile.cc are
  not among the sources. The spec names them as external collaborators: raw sector
  access, a file header that allocates and deallocates data sectors, a persistent
  free-space bitmap with one bit per sector, and an open-file handle built on a header.
  The constants are those of the reference disk geometry; \<open>DirectoryEntrySize\<close> stands
  for \<open>sizeof(DirectoryEntry)\<close>.
\<close>

definition SectorSize :: int where
  "SectorSize = 128"

definition NumSectors :: nat where
  "NumSectors = 1024"

definition BitsInByte :: int where
  "BitsInByte = 8"

definition DirectoryEntrySize :: int where
  "DirectoryEntrySize = 20"

text \<open>The constants filesys.cc defines itself.\<close>

definition FreeMapSector :: int where
  "FreeMapSector = 0"

definition DirectorySector :: int where
  "DirectorySector = 1"

definition FreeMapFileSize :: int where
  "FreeMapFileSize = int NumSectors div BitsInByte"

definition NumDirEntries :: nat where
  "NumDirEntries = 64"

definition DirectoryFileSize :: int where
  "DirectoryFileSize = DirectoryEntrySize * int NumDirEntries"

text \<open>
  A file header records the size of the file and the sectors of its data; the number of
  sectors is the length of the list.
\<close>

record FileHeader =
  numBytes :: int
  dataSectors :: "int list"

text \<open>
  The persistent state. A header lives in one sector. The bytes of a file are reached
  through its header, so a file is identified with the sector of its header, and so is an
  open-file handle (\<open>new OpenFile(sector)\<close>); the contents of a file are kept as the
  directory table they deserialise to. The free-space bitmap is the contents of the file
  whose header is in sector 0. \<open>writes\<close> records every write-back, oldest first.
\<close>

datatype disk_write = HeaderWrite int | TableWrite int | BitmapWrite

record Disk =
  headerAt :: "int \<Rightarrow> FileHeader"
  tableOf :: "int \<Rightarrow> DirectoryEntry list"
  freeMapImage :: "bool list"
  writes :: "disk_write list"

text \<open>
  What the model stops at: a write past the end of one of the fixed buffers
  (\<open>pathCopy[100]\<close>, \<open>str[100]\<close>, \<open>folder[10][10]\<close>), a read of \<open>folder[count - 1]\<close>
  when no component was parsed, and a failed \<open>ASSERT\<close>, which aborts the kernel.
\<close>

datatype fault = BufferOverrun | IndexUnderrun | AssertionFailed

subsection \<open>Bitmap\<close>

text \<open>
  Modelled from the spec: the free-space bitmap (bitmap.cc and pbitmap.cc are not among
  the sources), one bit per sector, tracking allocated and free, kept in a file. The
  bitmap is the list of its bits, \<open>True\<close> for a sector in use; \<open>FindAndSet\<close> takes the
  lowest clear bit. Marking or clearing a bit outside the bitmap violates the
  collaborator's own precondition; the model leaves the bitmap as it is there.
\<close>

definition Bitmap_Mark :: "bool list \<Rightarrow> int \<Rightarrow> bool list" where
  "Bitmap_Mark bits which =
     (if 0 \<le> which \<and> which < int (length bits) then bits[nat which := True] else bits)"

definition Bitmap_Clear :: "bool list \<Rightarrow> int \<Rightarrow> bool list" where
  "Bitmap_Clear bits which =
     (if 0 \<le> which \<and> which < int (length bits) then bits[nat which := False] else bits)"

definition Bitmap_Test :: "bool list \<Rightarrow> int \<Rightarrow> bool" where
  "Bitmap_Test bits which = (0 \<le> which \<and> which < int (length bits) \<and> bits ! nat which)"

fun Find_clear_from :: "bool list \<Rightarrow> int \<Rightarrow> int" where
  "Find_clear_from [] i = -1"
| "Find_clear_from (b # bs) i = (if \<not> b then i else Find_clear_from bs (i + 1))"

definition Bitmap_FindAndSet :: "bool list \<Rightarrow> int \<times> bool list" where
  "Bitmap_FindAndSet bits =
     (let i = Find_clear_from bits 0
      in if i = -1 then (-1, bits) else (i, Bitmap_Mark bits i))"

definition Bitmap_NumClear :: "bool list \<Rightarrow> int" where
  "Bitmap_NumClear bits = int (length (filter Not bits))"

definition PersistentBitmap_FetchFrom :: "Disk \<Rightarrow> bool list" where
  "PersistentBitmap_FetchFrom d = freeMapImage d"

definition PersistentBitmap_WriteBack :: "bool list \<Rightarrow> Disk \<Rightarrow> Disk" where
  "PersistentBitmap_WriteBack bits d =
     d\<lparr>freeMapImage := bits, writes := writes d @ [BitmapWrite]\<rparr>"

subsection \<open>File header\<close>

text \<open>
  Modelled from the spec: the file header (filehdr.cc is not among the sources), which
  allocates the data sectors of a file of a given size from the bitmap, failing when the
  space is insufficient, and deallocates them to the bitmap. \<open>Allocate\<close> fails, changing
  nothing, when the bitmap has fewer clear bits than the file needs sectors; otherwise
  it takes the sectors one by one.
\<close>

definition divRoundUp :: "int \<Rightarrow> int \<Rightarrow> int" where
  "divRoundUp n s = (n + (s - 1)) div s"

fun Allocate_sectors :: "nat \<Rightarrow> bool list \<Rightarrow> int list \<times> bool list" where
  "Allocate_sectors 0 bits = ([], bits)"
| "Allocate_sectors (Suc n) bits =
     (let found = Bitmap_FindAndSet bits;
          more = Allocate_sectors n (snd found)
      in (fst found # fst more, snd more))"

definition FileHeader_Allocate :: "bool list \<Rightarrow> int \<Rightarrow> (FileHeader \<times> bool list) option" where
  "FileHeader_Allocate freeMap fileSize =
     (let numSectors = divRoundUp fileSize SectorSize
      in if Bitmap_NumClear freeMap < numSectors then None
         else (let got = Allocate_sectors (nat numSectors) freeMap
               in Some (\<lparr>numBytes = fileSize, dataSectors = fst got\<rparr>, snd got)))"

definition FileHeader_Deallocate :: "FileHeader \<Rightarrow> bool list \<Rightarrow> bool list" where
  "FileHeader_Deallocate hdr freeMap = foldl Bitmap_Clear freeMap (dataSectors hdr)"

definition FileHeader_FetchFrom :: "Disk \<Rightarrow> int \<Rightarrow> FileHeader" where
  "FileHeader_FetchFrom d sec = headerAt d sec"

definition FileHeader_WriteBack :: "FileHeader \<Rightarrow> int \<Rightarrow> Disk \<Rightarrow> Disk" where
  "FileHeader_WriteBack hdr sec d =
     d\<lparr>headerAt := (headerAt d)(sec := hdr), writes := writes d @ [HeaderWrite sec]\<rparr>"

subsection \<open>Reading and writing a directory table through a file\<close>

text \<open>
  \<open>FetchFrom\<close> and \<open>WriteBack\<close> of directory.cc, over the open-file handle
  (openfile.cc is not among the sources; modelled from the spec as a handle that transfers
  the bytes of the file). \<open>FetchFrom\<close> reads into the table of the object: the entries
  the file holds replace the first entries of the table, and a file that holds fewer
  leaves the rest of the table as it was. \<open>WriteBack\<close> writes the whole table.
\<close>

definition Directory_FetchFrom :: "Disk \<Rightarrow> int \<Rightarrow> DirectoryEntry list \<Rightarrow> DirectoryEntry list" where
  "Directory_FetchFrom d file table =
     (let img = tableOf d file
      in take (length table) img @ drop (length img) table)"

definition Directory_WriteBack :: "DirectoryEntry list \<Rightarrow> int \<Rightarrow> Disk \<Rightarrow> Disk" where
  "Directory_WriteBack table file d =
     d\<lparr>tableOf := (tableOf d)(file := table), writes := writes d @ [TableWrite file]\<rparr>"

section \<open>The file system (filesys/filesys.cc)\<close>

subsection \<open>Formatting\<close>

text \<open>
  The constructor with \<open>format = TRUE\<close>, on a disk with anything on it. The two
  allocations are asserted to succeed.
\<close>

definition FileSystem_format :: "Disk \<Rightarrow> fault + Disk" where
  "FileSystem_format d =
     (let freeMap = replicate NumSectors False;
          directory = Directory NumDirEntries;
          freeMap1 = Bitmap_Mark freeMap FreeMapSector;
          freeMap2 = Bitmap_Mark freeMap1 DirectorySector
      in case FileHeader_Allocate freeMap2 FreeMapFileSize of
           None \<Rightarrow> Inl AssertionFailed
         | Some (mapHdr, freeMap3) \<Rightarrow>
             (case FileHeader_Allocate freeMap3 DirectoryFileSize of
                None \<Rightarrow> Inl AssertionFailed
              | Some (dirHdr, freeMap4) \<Rightarrow>
                  Inr (Directory_WriteBack directory DirectorySector
                        (PersistentBitmap_WriteBack freeMap4
                          (FileHeader_WriteBack dirHdr DirectorySector
                            (FileHeader_WriteBack mapHdr FreeMapSector d))))))"

subsection \<open>Parse\<close>

text \<open>
  \<open>strtok\<close> with the delimiter \<open>/\<close>: the tokens are the maximal runs of other
  characters, in order; \<open>cur\<close> is the token being read.
\<close>

fun strtok_from :: "string \<Rightarrow> string \<Rightarrow> string list" where
  "strtok_from [] cur = (if cur = [] then [] else [cur])"
| "strtok_from (c # cs) cur =
     (if c = CHR ''/'' then (if cur = [] then strtok_from cs [] else cur # strtok_from cs [])
      else strtok_from cs (cur @ [c]))"

definition strtok_all :: "string \<Rightarrow> string list" where
  "strtok_all path = strtok_from path []"

text \<open>The components as the tokenising loop stores them in \<open>folder\<close>.\<close>

definition path_folder :: "string \<Rightarrow> string list" where
  "path_folder path = map (\<lambda>pch. strncpy pch FileNameMaxLen) (strtok_all path)"

text \<open>
  The walk \<open>for (i = 0; i < *count - (int)create; i++)\<close>. It carries the table of the
  \<open>directory\<close> object and the handle \<open>tempDirectory\<close>; \<open>None\<close> is the \<open>break\<close> on a
  component that is not found.
\<close>

function Parse_walk ::
  "Disk \<Rightarrow> string list \<Rightarrow> int \<Rightarrow> int \<Rightarrow> DirectoryEntry list \<Rightarrow> int
     \<Rightarrow> (DirectoryEntry list \<times> int) option" where
  "Parse_walk d folder bound i directory tempDirectory =
     (if i < bound then
        (let sec = Directory_Find directory (folder ! nat i)
         in if sec = -1 then None
            else Parse_walk d folder bound (i + 1) (Directory_FetchFrom d sec directory) sec)
      else Some (directory, tempDirectory))"
  by pat_completeness auto
termination
  by (relation "measure (\<lambda>(d, folder, bound, i, directory, tempDirectory). nat (bound - i))") auto

text \<open>
  \<open>Parse\<close> returns the handle (or NULL), and the components through \<open>folder\<close>; the
  callers pass \<open>count = 0\<close>, so \<open>*count\<close> is the number of components on return.
\<close>

definition FileSystem_Parse :: "Disk \<Rightarrow> string \<Rightarrow> bool \<Rightarrow> fault + (int option \<times> string list)" where
  "FileSystem_Parse d path create =
     (if 100 \<le> length path then Inl BufferOverrun
      else (let folder = path_folder path
            in if 10 < length folder then Inl BufferOverrun
               else Inr (map_option snd
                           (Parse_walk d folder (int (length folder) - (if create then 1 else 0)) 0
                              (Directory_FetchFrom d DirectorySector (Directory NumDirEntries))
                              DirectorySector),
                         folder)))"

subsection \<open>Create, CreateDirectory, Open, Remove\<close>

text \<open>
  The operations return the disk they leave together with their result. The bitmap and
  the table are copies in memory until they are written back. \<open>folder[count - 1]\<close> is
  read only after \<open>Parse\<close> gave a handle; for a path with no component that read is
  before the start of the array, where the model stops.
\<close>

definition FileSystem_Create :: "Disk \<Rightarrow> string \<Rightarrow> int \<Rightarrow> fault + (bool \<times> Disk)" where
  "FileSystem_Create d nm initialSize =
     (case FileSystem_Parse d nm True of
        Inl f \<Rightarrow> Inl f
      | Inr (None, folder) \<Rightarrow> Inr (False, d)
      | Inr (Some openDirectoryFile, folder) \<Rightarrow>
          if folder = [] then Inl IndexUnderrun
          else
            (let directory = Directory_FetchFrom d openDirectoryFile (Directory NumDirEntries)
             in if Directory_Find directory (folder ! (length folder - 1)) \<noteq> -1
                then Inr (False, d)
                else
                  (let freeMap = PersistentBitmap_FetchFrom d;
                       found = Bitmap_FindAndSet freeMap
                   in if fst found = -1 then Inr (False, d)
                      else
                        (let added = Directory_Add directory (folder ! (length folder - 1))
                                       (fst found) False
                         in if \<not> fst added then Inr (False, d)
                            else
                              (case FileHeader_Allocate (snd found) initialSize of
                                 None \<Rightarrow> Inr (False, d)
                               | Some (hdr, freeMap') \<Rightarrow>
                                   Inr (True,
                                        PersistentBitmap_WriteBack freeMap'
                                          (Directory_WriteBack (snd added) openDirectoryFile
                                            (FileHeader_WriteBack hdr (fst found) d))))))))"

text \<open>
  \<open>CreateDirectory\<close> tokenises the path itself (no copy of the path is made) and walks
  all components but the last.
\<close>

definition FileSystem_CreateDirectory :: "Disk \<Rightarrow> string \<Rightarrow> fault + (bool \<times> Disk)" where
  "FileSystem_CreateDirectory d path =
     (let folder = path_folder path
      in if 10 < length folder then Inl BufferOverrun
         else
           (case Parse_walk d folder (int (length folder) - 1) 0
                   (Directory_FetchFrom d DirectorySector (Directory NumDirEntries))
                   DirectorySector of
              None \<Rightarrow> Inr (False, d)
            | Some (directory, tempDirectory) \<Rightarrow>
                (let freeMap = PersistentBitmap_FetchFrom d;
                     found = Bitmap_FindAndSet freeMap
                 in if fst found = -1 then Inr (False, d)
                    else if folder = [] then Inl IndexUnderrun
                    else
                      (let added = Directory_Add directory (folder ! (length folder - 1))
                                     (fst found) True
                       in if \<not> fst added then Inr (False, d)
                          else
                            (case FileHeader_Allocate (snd found) DirectoryFileSize of
                               None \<Rightarrow> Inr (False, d)
                             | Some (hdr, freeMap') \<Rightarrow>
                                 Inr (True,
                                      PersistentBitmap_WriteBack freeMap'
                                        (Directory_WriteBack (snd added) tempDirectory
                                          (Directory_WriteBack (Directory NumDirEntries) (fst found)
                                            (FileHeader_WriteBack hdr (fst found) d)))))))))"

text \<open>\<open>Open\<close> returns the handle of the file, or NULL.\<close>

definition FileSystem_Open :: "Disk \<Rightarrow> string \<Rightarrow> fault + int option" where
  "FileSystem_Open d nm =
     (case FileSystem_Parse d nm True of
        Inl f \<Rightarrow> Inl f
      | Inr (None, folder) \<Rightarrow> Inr None
      | Inr (Some openDirectoryFile, folder) \<Rightarrow>
          if folder = [] then Inl IndexUnderrun
          else
            (let directory = Directory_FetchFrom d openDirectoryFile (Directory NumDirEntries);
                 sec = Directory_Find directory (folder ! (length folder - 1))
             in if 0 \<le> sec then Inr (Some sec) else Inr None))"

definition FileSystem_Remove :: "Disk \<Rightarrow> string \<Rightarrow> fault + (bool \<times> Disk)" where
  "FileSystem_Remove d nm =
     (case FileSystem_Parse d nm True of
        Inl f \<Rightarrow> Inl f
      | Inr (None, folder) \<Rightarrow> Inr (False, d)
      | Inr (Some openDirectoryFile, folder) \<Rightarrow>
          if folder = [] then Inl IndexUnderrun
          else
            (let directory = Directory_FetchFrom d openDirectoryFile (Directory NumDirEntries);
                 sec = Directory_Find directory (folder ! (length folder - 1))
             in if sec = -1 then Inr (False, d)
                else
                  (let fileHdr = FileHeader_FetchFrom d sec;
                       freeMap = PersistentBitmap_FetchFrom d;
                       freeMap1 = FileHeader_Deallocate fileHdr freeMap;
                       freeMap2 = Bitmap_Clear freeMap1 sec;
                       directory1 = snd (Directory_Remove directory (folder ! (length folder - 1)))
                   in Inr (True,
                           Directory_WriteBack directory1 openDirectoryFile
                             (PersistentBitmap_WriteBack freeMap2 d)))))"

subsection \<open>RecurRemoveDirectory\<close>

text \<open>
  The function is declared \<open>bool\<close> but has no \<open>return\<close> statement, so the model
  returns the disk only. It asserts that \<open>Parse\<close> gave a handle. The bitmap and the
  header of the directory are read before the entries are removed, and each entry is
  removed through its full path \<open>name/entry\<close>, built in \<open>str[100]\<close>: a file by
  \<open>Remove\<close>, a directory by the function itself. The second function is the loop
  \<open>for (i = 0; i < NumDirEntries; i++)\<close> over the table read before the loop.
\<close>

function FileSystem_RecurRemoveDirectory :: "Disk \<Rightarrow> string \<Rightarrow> fault + Disk"
  and RecurRemove_entries :: "Disk \<Rightarrow> string \<Rightarrow> DirectoryEntry list \<Rightarrow> nat \<Rightarrow> fault + Disk" where
  "FileSystem_RecurRemoveDirectory d nm =
     (case FileSystem_Parse d nm True of
        Inl f \<Rightarrow> Inl f
      | Inr (None, folder) \<Rightarrow> Inl AssertionFailed
      | Inr (Some openDirectoryFile, folder) \<Rightarrow>
          if folder = [] then Inl IndexUnderrun
          else
            (let directory = Directory_FetchFrom d openDirectoryFile (Directory NumDirEntries);
                 sec = Directory_Find directory (folder ! (length folder - 1))
             in if sec \<noteq> -1 then
                  (let directory1 = Directory_FetchFrom d sec directory;
                       fileHdr = FileHeader_FetchFrom d sec;
                       freeMap = PersistentBitmap_FetchFrom d
                   in case RecurRemove_entries d nm directory1 0 of
                        Inl f \<Rightarrow> Inl f
                      | Inr d1 \<Rightarrow>
                          (let freeMap1 = FileHeader_Deallocate fileHdr freeMap;
                               freeMap2 = Bitmap_Clear freeMap1 sec;
                               directory2 = Directory_FetchFrom d1 openDirectoryFile directory1;
                               directory3 = snd (Directory_Remove directory2
                                                   (folder ! (length folder - 1)))
                           in Inr (Directory_WriteBack directory3 openDirectoryFile
                                     (PersistentBitmap_WriteBack freeMap2 d1))))
                else Inr d))"
| "RecurRemove_entries d nm directory i =
     (if i < NumDirEntries then
        (if Directory_inUseIndex directory i then
           (if 100 < length nm + length (Directory_getIndexName directory i) + 2
            then Inl BufferOverrun
            else
              (let str = nm @ ''/'' @ Directory_getIndexName directory i
               in if \<not> Directory_isDirectory directory i then
                    (case FileSystem_Remove d str of
                       Inl f \<Rightarrow> Inl f
                     | Inr (r, d1) \<Rightarrow> RecurRemove_entries d1 nm directory (i + 1))
                  else
                    (case FileSystem_RecurRemoveDirectory d str of
                       Inl f \<Rightarrow> Inl f
                     | Inr d1 \<Rightarrow> RecurRemove_entries d1 nm directory (i + 1))))
         else RecurRemove_entries d nm directory (i + 1))
      else Inr d)"
  by pat_completeness auto
termination
  by (relation "measures
       [\<lambda>x. case x of Inl (d, nm) \<Rightarrow> 100 - length nm
                     | Inr (d, nm, directory, i) \<Rightarrow> 100 - length nm,
        \<lambda>x. case x of Inl (d, nm) \<Rightarrow> NumDirEntries + 1
                     | Inr (d, nm, directory, i) \<Rightarrow> NumDirEntries - i]") auto

subsection \<open>Notions the statements about the file system use\<close>

text \<open>
  Path resolution as the spec describes it: visit the components from left to right,
  starting from a current table and handle; a component that is not found ends the
  resolution with nothing; a found one is opened and its table becomes the current one.
\<close>

fun resolve_from ::
  "Disk \<Rightarrow> DirectoryEntry list \<Rightarrow> int \<Rightarrow> string list \<Rightarrow> (DirectoryEntry list \<times> int) option" where
  "resolve_from d table handle [] = Some (table, handle)"
| "resolve_from d table handle (c # cs) =
     (if Directory_Find table c = -1 then None
      else resolve_from d (Directory_FetchFrom d (Directory_Find table c) table)
             (Directory_Find table c) cs)"

text \<open>The root table as every operation first reads it.\<close>

definition root_table :: "Disk \<Rightarrow> DirectoryEntry list" where
  "root_table d = Directory_FetchFrom d DirectorySector (Directory NumDirEntries)"

text \<open>The table of a directory as an operation reads it through a fresh object.\<close>

definition table_at :: "Disk \<Rightarrow> int \<Rightarrow> DirectoryEntry list" where
  "table_at d file = Directory_FetchFrom d file (Directory NumDirEntries)"

text \<open>A disk with nothing on it, and the disk the formatting leaves.\<close>

definition blank_disk :: Disk where
  "blank_disk =
     \<lparr>headerAt = (\<lambda>s. \<lparr>numBytes = 0, dataSectors = []\<rparr>), tableOf = (\<lambda>s. []),
      freeMapImage = [], writes = []\<rparr>"

definition formatted_disk :: Disk where
  "formatted_disk = (case FileSystem_format blank_disk of Inr d \<Rightarrow> d | Inl f \<Rightarrow> blank_disk)"

text \<open>
  The tree of the spec's test: on the formatted disk, CreateDirectory("/a"),
  CreateDirectory("/a/b") and Create("/a/b/f.txt", 10), in this order.
\<close>

definition tree_built :: "fault + Disk" where
  "tree_built =
     (case FileSystem_CreateDirectory formatted_disk ''/a'' of
        Inl f \<Rightarrow> Inl f
      | Inr (r1, d1) \<Rightarrow>
          (case FileSystem_CreateDirectory d1 ''/a/b'' of
             Inl f \<Rightarrow> Inl f
           | Inr (r2, d2) \<Rightarrow>
               (case FileSystem_Create d2 ''/a/b/f.txt'' 10 of
                  Inl f \<Rightarrow> Inl f
                | Inr (r3, d3) \<Rightarrow> Inr d3)))"

definition built_disk :: Disk where
  "built_disk = (case tree_built of Inr d \<Rightarrow> d | Inl f \<Rightarrow> blank_disk)"

text \<open>Whether an operation returned true, and the disk it returned.\<close>

definition succeeded :: "fault + (bool \<times> Disk) \<Rightarrow> bool" where
  "succeeded r = (case r of Inr (ok, d) \<Rightarrow> ok | Inl f \<Rightarrow> False)"

definition disk_after :: "fault + (bool \<times> Disk) \<Rightarrow> Disk" where
  "disk_after r = (case r of Inr (ok, d) \<Rightarrow> d | Inl f \<Rightarrow> blank_disk)"


text \<open>
  The recursive equations are used one step at a time in the proofs below.
\<close>

declare Parse_walk.simps [simp del]
declare FileSystem_RecurRemoveDirectory.simps [simp del] RecurRemove_entries.simps [simp del]

section \<open>Facts about the table operations\<close>

lemma FindIndex_from_none:
  "0 \<le> k \<Longrightarrow> (FindIndex_from es nm k = -1) = (\<forall>e \<in> set es. \<not> matches nm e)"
proof (induction es arbitrary: k)
  case Nil
  show ?case by simp
next
  case (Cons e es)
  have "0 \<le> k + 1" using Cons.prems by simp
  from Cons.IH[OF this] Cons.prems show ?case
    by (auto simp: matches_def)
qed

lemma FindIndex_from_range:
  "0 \<le> k \<Longrightarrow> FindIndex_from es nm k \<noteq> -1 \<Longrightarrow>
     k \<le> FindIndex_from es nm k \<and> FindIndex_from es nm k < k + int (length es)"
proof (induction es arbitrary: k)
  case Nil
  then show ?case by simp
next
  case (Cons e es)
  show ?case
  proof (cases "matches nm e")
    case True
    then show ?thesis by (simp add: matches_def)
  next
    case False
    then have eq: "FindIndex_from (e # es) nm k = FindIndex_from es nm (k + 1)"
      by (auto simp: matches_def)
    have "0 \<le> k + 1" using Cons.prems by simp
    from Cons.IH[OF this] Cons.prems(2) eq show ?thesis by auto
  qed
qed

lemma FindIndex_from_hit:
  "0 \<le> k \<Longrightarrow> FindIndex_from es nm k \<noteq> -1 \<Longrightarrow>
     matches nm (es ! nat (FindIndex_from es nm k - k)) \<and>
     (\<forall>j < nat (FindIndex_from es nm k - k). \<not> matches nm (es ! j))"
proof (induction es arbitrary: k)
  case Nil
  then show ?case by simp
next
  case (Cons e es)
  show ?case
  proof (cases "matches nm e")
    case True
    then show ?thesis by (simp add: matches_def)
  next
    case False
    then have eq: "FindIndex_from (e # es) nm k = FindIndex_from es nm (k + 1)"
      by (auto simp: matches_def)
    have k1: "0 \<le> k + 1" using Cons.prems by simp
    have ne: "FindIndex_from es nm (k + 1) \<noteq> -1" using Cons.prems(2) eq by simp
    from FindIndex_from_range[OF k1 ne]
    have rng: "k + 1 \<le> FindIndex_from es nm (k + 1)" by simp
    then have idx: "nat (FindIndex_from es nm (k + 1) - k)
        = Suc (nat (FindIndex_from es nm (k + 1) - (k + 1)))"
      by simp
    from Cons.IH[OF k1 ne]
    have ih: "matches nm (es ! nat (FindIndex_from es nm (k + 1) - (k + 1)))"
      and ih2: "\<forall>j < nat (FindIndex_from es nm (k + 1) - (k + 1)). \<not> matches nm (es ! j)"
      by auto
    have "\<forall>j < Suc (nat (FindIndex_from es nm (k + 1) - (k + 1))). \<not> matches nm ((e # es) ! j)"
    proof (intro allI impI)
      fix j assume "j < Suc (nat (FindIndex_from es nm (k + 1) - (k + 1)))"
      then show "\<not> matches nm ((e # es) ! j)"
        using False ih2 by (cases j) auto
    qed
    with ih show ?thesis unfolding eq idx by simp
  qed
qed

lemma FindIndex_none:
  "(Directory_FindIndex table nm = -1) = (\<forall>e \<in> set table. \<not> matches nm e)"
  unfolding Directory_FindIndex_def by (rule FindIndex_from_none) simp

lemma FindIndex_range:
  "Directory_FindIndex table nm \<noteq> -1 \<Longrightarrow>
     0 \<le> Directory_FindIndex table nm \<and> Directory_FindIndex table nm < int (length table)"
  unfolding Directory_FindIndex_def using FindIndex_from_range[of 0 table nm] by simp

lemma FindIndex_hit:
  "Directory_FindIndex table nm \<noteq> -1 \<Longrightarrow>
     matches nm (table ! nat (Directory_FindIndex table nm)) \<and>
     (\<forall>j < nat (Directory_FindIndex table nm). \<not> matches nm (table ! j))"
  unfolding Directory_FindIndex_def using FindIndex_from_hit[of 0 table nm] by simp

lemma first_unused_None:
  "(first_unused table = None) = (\<forall>e \<in> set table. inUse e)"
  by (induction table) auto

lemma first_unused_Some:
  "first_unused table = Some i \<Longrightarrow>
     i < length table \<and> \<not> inUse (table ! i) \<and> (\<forall>j < i. inUse (table ! j))"
proof (induction table arbitrary: i)
  case Nil
  then show ?case by simp
next
  case (Cons e es)
  show ?case
  proof (cases "inUse e")
    case False
    with Cons.prems show ?thesis by simp
  next
    case True
    with Cons.prems obtain i' where i': "first_unused es = Some i'" "i = Suc i'"
      by auto
    from Cons.IH[OF i'(1)] True i'(2) show ?thesis
      by (auto simp: less_Suc_eq_0_disj)
  qed
qed

lemma Add_scan_full:
  "first_unused table = None \<Longrightarrow> Add_scan table nm s d = (False, table)"
  by (induction table) (auto split: if_splits)

lemma Add_scan_slot:
  "first_unused table = Some i \<Longrightarrow>
     Add_scan table nm s d = (True, table[i := new_entry nm s d])"
proof (induction table arbitrary: i)
  case Nil
  then show ?case by simp
next
  case (Cons e es)
  show ?case
  proof (cases "inUse e")
    case False
    with Cons.prems have "i = 0" by simp
    with False show ?thesis by (simp add: new_entry_def strncpy_def)
  next
    case True
    with Cons.prems obtain i' where i': "first_unused es = Some i'" "i = Suc i'"
      by auto
    from Cons.IH[OF i'(1)] True i'(2) show ?thesis by simp
  qed
qed

lemma Add_result:
  "Directory_Add table nm s d =
     (if \<exists>e \<in> set table. matches nm e then (False, table)
      else case first_unused table of
             None \<Rightarrow> (False, table)
           | Some i \<Rightarrow> (True, table[i := new_entry nm s d]))"
proof (cases "\<exists>e \<in> set table. matches nm e")
  case True
  then have "Directory_FindIndex table nm \<noteq> -1" using FindIndex_none[of table nm] by blast
  with True show ?thesis by (simp add: Directory_Add_def)
next
  case False
  then have "Directory_FindIndex table nm = -1" using FindIndex_none[of table nm] by blast
  with False show ?thesis
    by (auto simp: Directory_Add_def Add_scan_full Add_scan_slot split: option.splits)
qed

lemma Remove_result:
  "Directory_Remove table nm =
     (if Directory_FindIndex table nm = -1 then (False, table)
      else (True, table[nat (Directory_FindIndex table nm) :=
                    (table ! nat (Directory_FindIndex table nm))\<lparr>inUse := False, isDir := False\<rparr>]))"
  by (simp add: Directory_Remove_def Let_def)

lemma in_use_count_le: "in_use_count table \<le> length table"
  by (simp add: in_use_count_def)

lemma names_unique_Directory: "names_unique (Directory n)"
  by (simp add: names_unique_def Directory_def)

lemma names_unique_update_new:
  assumes u: "names_unique table"
    and nomatch: "\<forall>e \<in> set table. \<not> matches nm e"
    and i: "i < length table"
  shows "names_unique (table[i := new_entry nm s d])"
  unfolding names_unique_def
proof (intro allI impI)
  fix a b
  assume a: "a < length (table[i := new_entry nm s d])"
    and b: "b < length (table[i := new_entry nm s d])"
    and h: "inUse (table[i := new_entry nm s d] ! a) \<and> inUse (table[i := new_entry nm s d] ! b) \<and>
       strncmp_eq (name (table[i := new_entry nm s d] ! a)) (name (table[i := new_entry nm s d] ! b))
         FileNameMaxLen"
  have la: "a < length table" and lb: "b < length table" using a b by simp_all
  have nm_a: "\<not> matches nm (table ! a)" and nm_b: "\<not> matches nm (table ! b)"
    using nomatch la lb by simp_all
  show "a = b"
  proof (cases "a = i")
    case ai: True
    show ?thesis
    proof (cases "b = i")
      case True
      with ai show ?thesis by simp
    next
      case False
      with ai h i have "inUse (table ! b)"
        and "strncmp_eq (take FileNameMaxLen nm) (name (table ! b)) FileNameMaxLen"
        by (simp_all add: new_entry_def)
      then have "matches nm (table ! b)"
        by (simp add: matches_def strncmp_eq_def eq_commute)
      with nm_b show ?thesis by simp
    qed
  next
    case nai: False
    show ?thesis
    proof (cases "b = i")
      case True
      with nai h i have "inUse (table ! a)"
        and "strncmp_eq (name (table ! a)) (take FileNameMaxLen nm) FileNameMaxLen"
        by (simp_all add: new_entry_def)
      then have "matches nm (table ! a)"
        by (simp add: matches_def strncmp_eq_def)
      with nm_a show ?thesis by simp
    next
      case False
      with nai h have "inUse (table ! a) \<and> inUse (table ! b) \<and>
          strncmp_eq (name (table ! a)) (name (table ! b)) FileNameMaxLen"
        by simp
      with u la lb show ?thesis unfolding names_unique_def by blast
    qed
  qed
qed

lemma names_unique_update_unused:
  assumes u: "names_unique table" and e: "\<not> inUse e"
  shows "names_unique (table[i := e])"
  unfolding names_unique_def
proof (intro allI impI)
  fix a b
  assume a: "a < length (table[i := e])" and b: "b < length (table[i := e])"
    and h: "inUse (table[i := e] ! a) \<and> inUse (table[i := e] ! b) \<and>
       strncmp_eq (name (table[i := e] ! a)) (name (table[i := e] ! b)) FileNameMaxLen"
  have la: "a < length table" and lb: "b < length table" using a b by simp_all
  have "a \<noteq> i" using h e la by (auto simp: nth_list_update)
  moreover have "b \<noteq> i" using h e lb by (auto simp: nth_list_update)
  ultimately have "inUse (table ! a) \<and> inUse (table ! b) \<and>
       strncmp_eq (name (table ! a)) (name (table ! b)) FileNameMaxLen"
    using h by simp
  with u la lb show "a = b" unfolding names_unique_def by blast
qed

lemma Add_length: "length (snd (Directory_Add table nm s d)) = length table"
  by (simp add: Add_result split: option.splits)

lemma Remove_length: "length (snd (Directory_Remove table nm)) = length table"
  by (simp add: Remove_result)

lemma Add_names_unique:
  "names_unique table \<Longrightarrow> names_unique (snd (Directory_Add table nm s d))"
  by (auto simp: Add_result names_unique_update_new dest: first_unused_Some split: option.splits)

lemma Remove_names_unique:
  "names_unique table \<Longrightarrow> names_unique (snd (Directory_Remove table nm))"
  by (simp add: Remove_result names_unique_update_unused)

lemma first_unused_least:
  assumes "i < length table" "\<not> inUse (table ! i)" "\<forall>j < i. inUse (table ! j)"
  shows "first_unused table = Some i"
proof -
  have "\<not> (\<forall>e \<in> set table. inUse e)" using assms(1,2) nth_mem by blast
  then obtain k where k: "first_unused table = Some k"
    using first_unused_None[of table] by (cases "first_unused table") auto
  from first_unused_Some[OF k]
  have "k < length table" "\<not> inUse (table ! k)" "\<forall>j < k. inUse (table ! j)" by auto
  with assms have "\<not> k < i" "\<not> i < k" by auto
  then have "k = i" by simp
  with k show ?thesis by simp
qed

lemma first_unused_filled:
  "first_unused (map entry_of pre @ replicate k unused_entry) =
     (if k = 0 then None else Some (length pre))"
proof (induction pre)
  case Nil
  show ?case by (cases k) (simp_all add: unused_entry_def)
next
  case (Cons p pre)
  then show ?case by (simp add: entry_of_def new_entry_def)
qed

lemma matches_entry_of:
  "matches nm (entry_of p) = (take FileNameMaxLen (fst p) = take FileNameMaxLen nm)"
  by (simp add: matches_def entry_of_def new_entry_def strncmp_eq_def)

lemma no_match_filled:
  assumes "take FileNameMaxLen nm \<notin> set (map (\<lambda>e. take FileNameMaxLen (fst e)) pre)"
  shows "\<forall>e \<in> set (map entry_of pre @ replicate k unused_entry). \<not> matches nm e"
proof
  fix e assume "e \<in> set (map entry_of pre @ replicate k unused_entry)"
  then consider p where "p \<in> set pre" "e = entry_of p" | "e = unused_entry"
    by auto
  then show "\<not> matches nm e"
  proof cases
    case 1
    have "take FileNameMaxLen (fst p) \<in> set (map (\<lambda>e. take FileNameMaxLen (fst e)) pre)"
      using 1(1) by simp
    with assms have "take FileNameMaxLen (fst p) \<noteq> take FileNameMaxLen nm" by metis
    with 1 show ?thesis by (simp add: matches_entry_of)
  next
    case 2
    then show ?thesis by (simp add: matches_def unused_entry_def)
  qed
qed

lemma Add_filled:
  assumes "take FileNameMaxLen nm \<notin> set (map (\<lambda>e. take FileNameMaxLen (fst e)) pre)"
  shows "Directory_Add (map entry_of pre @ replicate k unused_entry) nm s d =
     (if k = 0 then (False, map entry_of pre)
      else (True, map entry_of (pre @ [(nm, s, d)]) @ replicate (k - 1) unused_entry))"
proof -
  have nomatch: "\<not> (\<exists>e \<in> set (map entry_of pre @ replicate k unused_entry). matches nm e)"
    using no_match_filled[OF assms, of k] by blast
  show ?thesis
  proof (cases k)
    case 0
    with nomatch show ?thesis
      using first_unused_filled[of pre 0] by (simp add: Add_result)
  next
    case (Suc k')
    have "(map entry_of pre @ replicate (Suc k') unused_entry)[length pre := new_entry nm s d]
        = map entry_of pre @ new_entry nm s d # replicate k' unused_entry"
      by (simp add: list_update_append)
    with nomatch Suc show ?thesis
      using first_unused_filled[of pre k] by (simp add: Add_result entry_of_def)
  qed
qed

lemma Add_all_filled:
  "distinct (map (\<lambda>e. take FileNameMaxLen (fst e)) (pre @ es)) \<Longrightarrow> length es \<le> k \<Longrightarrow>
     Add_all (map entry_of pre @ replicate k unused_entry) es =
       (replicate (length es) True,
        map entry_of (pre @ es) @ replicate (k - length es) unused_entry)"
proof (induction es arbitrary: pre k)
  case Nil
  show ?case by simp
next
  case (Cons e es)
  obtain nm s d where e: "e = (nm, s, d)" by (cases e) auto
  from Cons.prems(2) obtain k' where k: "k = Suc k'" by (cases k) auto
  have fresh: "take FileNameMaxLen nm \<notin> set (map (\<lambda>e. take FileNameMaxLen (fst e)) pre)"
    using Cons.prems(1) e by auto
  have d': "distinct (map (\<lambda>e. take FileNameMaxLen (fst e)) ((pre @ [(nm, s, d)]) @ es))"
    using Cons.prems(1) e by simp
  have l': "length es \<le> k'" using Cons.prems(2) k by simp
  from Cons.IH[OF d' l'] Add_filled[OF fresh, of k s d] k e
  show ?case by simp
qed

lemma Add_all_append:
  "Add_all table (xs @ ys) =
     (fst (Add_all table xs) @ fst (Add_all (snd (Add_all table xs)) ys),
      snd (Add_all (snd (Add_all table xs)) ys))"
  by (induction xs arbitrary: table) (auto simp: Let_def)

lemma Directory_filled: "Directory n = map entry_of [] @ replicate n unused_entry"
  by (simp add: Directory_def unused_entry_def)

lemma Add_succeeds_iff:
  "fst (Directory_Add table nm s d) =
     ((\<forall>e \<in> set table. \<not> matches nm e) \<and> (\<exists>e \<in> set table. \<not> inUse e))"
proof (cases "first_unused table")
  case None
  then show ?thesis using first_unused_None[of table] by (auto simp: Add_result)
next
  case (Some i)
  then have "\<not> (\<forall>e \<in> set table. inUse e)" using first_unused_None[of table] by simp
  with Some show ?thesis by (auto simp: Add_result)
qed

lemma full_run:
  assumes len: "length es = Suc C"
    and dist: "distinct (map (\<lambda>e. take FileNameMaxLen (fst e)) es)"
  shows "Add_all (Directory C) (take C es) = (replicate C True, map entry_of (take C es))"
    and "fst (Add_all (Directory C) es) = replicate C True @ [False]"
proof -
  have split: "es = take C es @ [es ! C]"
    using len take_Suc_conv_app_nth[of C es] by simp
  have dist1: "distinct (map (\<lambda>e. take FileNameMaxLen (fst e)) ([] @ take C es))"
    using dist by (simp add: distinct_take take_map[symmetric])
  have l: "length (take C es) \<le> C" by simp
  have lenC: "length (take C es) = C" using len by simp
  from Add_all_filled[OF dist1 l] lenC
  show first: "Add_all (Directory C) (take C es) = (replicate C True, map entry_of (take C es))"
    by (simp add: Directory_filled)
  obtain nm s d where last: "es ! C = (nm, s, d)" by (cases "es ! C") auto
  have "distinct (map (\<lambda>e. take FileNameMaxLen (fst e)) (take C es @ [es ! C]))"
    using dist split by simp
  then have fresh: "take FileNameMaxLen nm \<notin> set (map (\<lambda>e. take FileNameMaxLen (fst e)) (take C es))"
    using last by auto
  from Add_filled[OF fresh, of 0 s d]
  have "Directory_Add (map entry_of (take C es)) nm s d = (False, map entry_of (take C es))"
    by simp
  then have "fst (Add_all (map entry_of (take C es)) [es ! C]) = [False]"
    using last by simp
  with first have "fst (Add_all (Directory C) (take C es @ [es ! C])) = replicate C True @ [False]"
    by (simp add: Add_all_append)
  with split show "fst (Add_all (Directory C) es) = replicate C True @ [False]" by simp
qed

lemma retry_after_remove:
  assumes len: "length es = Suc C"
    and dist: "distinct (map (\<lambda>e. take FileNameMaxLen (fst e)) es)"
    and j: "j < C"
  shows "fst (Directory_Remove (map entry_of (take C es)) (fst (es ! j)))"
    and "fst (Directory_Add (snd (Directory_Remove (map entry_of (take C es)) (fst (es ! j))))
               (fst (es ! C)) s d)"
proof -
  let ?full = "map entry_of (take C es)"
  let ?nm = "fst (es ! j)"
  have jl: "j < length ?full" using len j by simp
  have "?full ! j = entry_of (es ! j)" using len j by simp
  then have "matches ?nm (?full ! j)" by (simp add: matches_entry_of)
  with jl have ex: "\<exists>e \<in> set ?full. matches ?nm e" using nth_mem by blast
  then have ne: "Directory_FindIndex ?full ?nm \<noteq> -1" using FindIndex_none[of ?full ?nm] by blast
  then show "fst (Directory_Remove ?full ?nm)" by (simp add: Remove_result)
  let ?i = "nat (Directory_FindIndex ?full ?nm)"
  have il: "?i < length ?full" using FindIndex_range[OF ne] by linarith
  have rem: "snd (Directory_Remove ?full ?nm) = ?full[?i := (?full ! ?i)\<lparr>inUse := False, isDir := False\<rparr>]"
    using ne by (simp add: Remove_result)
  have split: "es = take C es @ [es ! C]"
    using len take_Suc_conv_app_nth[of C es] by simp
  have "distinct (map (\<lambda>e. take FileNameMaxLen (fst e)) (take C es @ [es ! C]))"
    using dist split by simp
  then have fresh: "take FileNameMaxLen (fst (es ! C))
      \<notin> set (map (\<lambda>e. take FileNameMaxLen (fst e)) (take C es))"
    by auto
  from no_match_filled[OF fresh, of 0]
  have nomatch: "\<forall>e \<in> set ?full. \<not> matches (fst (es ! C)) e" by simp
  let ?e' = "(?full ! ?i)\<lparr>inUse := False, isDir := False\<rparr>"
  have unused: "\<not> inUse ?e'" by simp
  have nm_e': "\<not> matches (fst (es ! C)) ?e'" using unused by (simp only: matches_def simp_thms)
  have sub: "set (?full[?i := ?e']) \<subseteq> insert ?e' (set ?full)"
    by (rule set_update_subset_insert)
  have nomatch': "\<forall>e \<in> set (?full[?i := ?e']). \<not> matches (fst (es ! C)) e"
  proof
    fix e assume "e \<in> set (?full[?i := ?e'])"
    with sub have "e = ?e' \<or> e \<in> set ?full" by blast
    then show "\<not> matches (fst (es ! C)) e"
      using nomatch nm_e' by blast
  qed
  have "?e' \<in> set (?full[?i := ?e'])" using il by (rule set_update_memI)
  with unused have "\<exists>e \<in> set (?full[?i := ?e']). \<not> inUse e" by blast
  with nomatch' have "fst (Directory_Add (?full[?i := ?e']) (fst (es ! C)) s d)"
    by (simp only: Add_succeeds_iff simp_thms)
  then show "fst (Directory_Add (snd (Directory_Remove ?full ?nm)) (fst (es ! C)) s d)"
    by (simp only: rem)
qed

section \<open>Facts about the file system operations\<close>




lemma Create_cases:
  assumes p: "FileSystem_Parse d nm True = Inr (Some parent, folder)" and f: "folder \<noteq> []"
  shows "FileSystem_Create d nm sz =
     (if Directory_Find (table_at d parent) (last folder) \<noteq> -1 then Inr (False, d)
      else if fst (Bitmap_FindAndSet (freeMapImage d)) = -1 then Inr (False, d)
      else if \<not> fst (Directory_Add (table_at d parent) (last folder)
                       (fst (Bitmap_FindAndSet (freeMapImage d))) False) then Inr (False, d)
      else case FileHeader_Allocate (snd (Bitmap_FindAndSet (freeMapImage d))) sz of
             None \<Rightarrow> Inr (False, d)
           | Some (hdr, freeMap') \<Rightarrow>
               Inr (True,
                    PersistentBitmap_WriteBack freeMap'
                      (Directory_WriteBack
                         (snd (Directory_Add (table_at d parent) (last folder)
                                 (fst (Bitmap_FindAndSet (freeMapImage d))) False))
                         parent
                         (FileHeader_WriteBack hdr (fst (Bitmap_FindAndSet (freeMapImage d))) d))))"
proof -
  have l: "folder ! (length folder - Suc 0) = last folder"
    using f by (simp add: last_conv_nth)
  show ?thesis
    using f
    by (simp add: FileSystem_Create_def p Let_def l table_at_def
        PersistentBitmap_FetchFrom_def split: option.split)
qed

lemma Create_no_parent:
  "FileSystem_Parse d nm True = Inr (None, folder) \<Longrightarrow> FileSystem_Create d nm sz = Inr (False, d)"
  by (simp add: FileSystem_Create_def)

lemma Create_false_same:
  assumes "FileSystem_Create d nm sz = Inr (False, d')"
  shows "d' = d"
proof (cases "FileSystem_Parse d nm True")
  case (Inl f)
  with assms show ?thesis by (simp add: FileSystem_Create_def)
next
  case (Inr r)
  obtain h folder where r: "r = (h, folder)" by (cases r) auto
  show ?thesis
  proof (cases h)
    case None
    with Inr r assms show ?thesis by (simp add: Create_no_parent)
  next
    case (Some parent)
    show ?thesis
    proof (cases "folder = []")
      case True
      with Inr r Some assms show ?thesis by (simp add: FileSystem_Create_def)
    next
      case False
      from Inr r Some have p: "FileSystem_Parse d nm True = Inr (Some parent, folder)" by simp
      from assms show ?thesis
        unfolding Create_cases[OF p False]
        by (auto split: if_splits option.splits)
    qed
  qed
qed








lemma Open_cases:
  assumes p: "FileSystem_Parse d nm True = Inr (Some parent, folder)" and f: "folder \<noteq> []"
  shows "FileSystem_Open d nm =
     (if 0 \<le> Directory_Find (table_at d parent) (last folder)
      then Inr (Some (Directory_Find (table_at d parent) (last folder))) else Inr None)"
proof -
  have l: "folder ! (length folder - Suc 0) = last folder"
    using f by (simp add: last_conv_nth)
  show ?thesis
    using f by (simp add: FileSystem_Open_def p Let_def l table_at_def)
qed






subsection \<open>The concrete disks\<close>

text \<open>
  The formatted disk and the disk with the tree are evaluated once each; the facts used
  below are read off the two evaluations.
\<close>

lemma formatted_facts:
  "(case FileSystem_format blank_disk of
      Inl f \<Rightarrow> False
    | Inr d \<Rightarrow>
        FileSystem_Parse d ''/x/y'' True = Inr (None, [''x'', ''y'']) \<and>
        FileSystem_Parse d ''/f.txt'' True = Inr (Some 1, [''f.txt'']) \<and>
        FileSystem_Parse d ''/big'' True = Inr (Some 1, [''big'']) \<and>
        fst (Bitmap_FindAndSet (freeMapImage d)) = 13 \<and>
        FileHeader_Allocate (snd (Bitmap_FindAndSet (freeMapImage d))) 1000000 = None \<and>
        Bitmap_Test (snd (Bitmap_FindAndSet (freeMapImage d))) 13 \<and>
        \<not> Bitmap_Test (freeMapImage d) 13 \<and>
        succeeded (FileSystem_Create d ''/f.txt'' 200))"
  by code_simp

lemma built_facts:
  "(case tree_built of
      Inl f \<Rightarrow> False
    | Inr d \<Rightarrow>
        FileSystem_Parse d ''/a/b/f.txt'' True = Inr (Some 24, [''a'', ''b'', ''f.txt'']) \<and>
        FileSystem_Parse d ''/a/b'' True = Inr (Some 13, [''a'', ''b'']) \<and>
        FileSystem_Parse d ''/a/zz'' True = Inr (Some 13, [''a'', ''zz'']) \<and>
        Directory_Find (table_at d 13) ''b'' = 24 \<and>
        Directory_Find (table_at d 24) ''f.txt'' = 35 \<and>
        Directory_Find (table_at d 13) ''zz'' = -1 \<and>
        Directory_FindIndex (table_at d 13) ''b'' = 0 \<and>
        table_at d 13 ! 0 = \<lparr>inUse = True, isDir = True, sector = 24, name = ''b''\<rparr> \<and>
        Directory_FindIndex (table_at d 24) ''f.txt'' = 0 \<and>
        table_at d 24 ! 0 = \<lparr>inUse = True, isDir = False, sector = 35, name = ''f.txt''\<rparr> \<and>
        map_option snd (resolve_from d (root_table d) DirectorySector [''a'', ''b'']) = Some 24 \<and>
        resolve_from d (root_table d) DirectorySector [''a''] =
          Some (Directory_FetchFrom d 13 (root_table d), 13) \<and>
        Directory_Find (Directory_FetchFrom d 13 (root_table d)) ''zz'' = -1 \<and>
        Directory_Find (Directory_FetchFrom d 13 (root_table d)) ''b'' = 24 \<and>
        dataSectors (FileHeader_FetchFrom d 35) = [36] \<and>
        list_all (\<lambda>e. \<not> inUse e \<or> sector e \<noteq> -1) (table_at d 13) \<and>
        Bitmap_Test (freeMapImage d) 35 \<and> Bitmap_Test (freeMapImage d) 36 \<and>
        Bitmap_Test (freeMapImage d) 24 \<and>
        \<not> succeeded (FileSystem_Create d ''/a/b'' 10) \<and>
        (case FileSystem_Create d ''/a/b'' 10 of Inl f \<Rightarrow> False | Inr r \<Rightarrow> True))"
  by code_simp

lemma on_result:
  "(case r of Inl f \<Rightarrow> False | Inr d \<Rightarrow> P d) \<Longrightarrow>
     P (case r of Inr d \<Rightarrow> d | Inl f \<Rightarrow> blank_disk)"
  by (cases r) simp_all

lemmas formatted_all = on_result[OF formatted_facts, folded formatted_disk_def]

lemmas built_all = on_result[OF built_facts, folded built_disk_def]

lemma formatted_parse_xy:
  "FileSystem_Parse formatted_disk ''/x/y'' True = Inr (None, [''x'', ''y''])"
  using formatted_all by simp


lemma formatted_parse_big:
  "FileSystem_Parse formatted_disk ''/big'' True = Inr (Some 1, [''big''])"
  using formatted_all by simp


lemma formatted_no_space:
  "FileHeader_Allocate (snd (Bitmap_FindAndSet (freeMapImage formatted_disk))) 1000000 = None \<and>
   Bitmap_Test (snd (Bitmap_FindAndSet (freeMapImage formatted_disk))) 13 \<and>
   \<not> Bitmap_Test (freeMapImage formatted_disk) 13"
  using formatted_all by simp


lemma built_parse_f:
  "FileSystem_Parse built_disk ''/a/b/f.txt'' True = Inr (Some 24, [''a'', ''b'', ''f.txt''])"
  using built_all by simp

lemma built_parse_b:
  "FileSystem_Parse built_disk ''/a/b'' True = Inr (Some 13, [''a'', ''b''])"
  using built_all by simp


lemma built_find_b:
  "Directory_Find (table_at built_disk 13) ''b'' = 24"
  using built_all by simp



lemma built_findindex_b:
  "Directory_FindIndex (table_at built_disk 13) ''b'' = 0"
  using built_all by simp

lemma built_entry_b:
  "table_at built_disk 13 ! 0 = \<lparr>inUse = True, isDir = True, sector = 24, name = ''b''\<rparr>"
  using built_all by simp

lemma built_findindex_f:
  "Directory_FindIndex (table_at built_disk 24) ''f.txt'' = 0"
  using built_all by simp

lemma built_entry_f:
  "table_at built_disk 24 ! 0 = \<lparr>inUse = True, isDir = False, sector = 35, name = ''f.txt''\<rparr>"
  using built_all by simp







lemma create_ab_fails:
  "\<not> succeeded (FileSystem_Create built_disk ''/a/b'' 10) \<and>
   (case FileSystem_Create built_disk ''/a/b'' 10 of Inl f \<Rightarrow> False | Inr r \<Rightarrow> True)"
  using built_all by simp

lemma failed_eq:
  "\<not> succeeded r \<and> (case r of Inl f \<Rightarrow> False | Inr x \<Rightarrow> True) \<Longrightarrow> r = Inr (False, disk_after r)"
  by (auto simp: succeeded_def disk_after_def split: sum.splits)



section \<open>Create: a failure leaves the disk as it was\<close>

text \<open>
  Claim C1. A call of \<open>Create\<close> that fails before the commit returns false and the disk
  it leaves is the disk it was given: no header sector, no directory file and not the
  bitmap file is written, and the write log is unchanged. The failures are: the parent
  does not resolve; the final name is already found in the parent table; the bitmap has no
  free sector for the header; \<open>Add\<close> finds no slot; the header cannot allocate the data
  sectors. The copies of the bitmap and of the table that the call changed in memory are
  not part of the result.
\<close>

theorem Create_failure_unchanged:
  "(FileSystem_Parse d nm True = Inr (None, folder) \<longrightarrow>
      FileSystem_Create d nm sz = Inr (False, d)) \<and>
   (FileSystem_Parse d nm True = Inr (Some parent, folder) \<and> folder \<noteq> [] \<and>
      (Directory_Find (table_at d parent) (last folder) \<noteq> -1 \<or>
       fst (Bitmap_FindAndSet (freeMapImage d)) = -1 \<or>
       \<not> fst (Directory_Add (table_at d parent) (last folder)
                (fst (Bitmap_FindAndSet (freeMapImage d))) False) \<or>
       FileHeader_Allocate (snd (Bitmap_FindAndSet (freeMapImage d))) sz = None) \<longrightarrow>
      FileSystem_Create d nm sz = Inr (False, d)) \<and>
   (FileSystem_Create d nm sz = Inr (False, d') \<longrightarrow>
      d' = d \<and> headerAt d' = headerAt d \<and> tableOf d' = tableOf d \<and>
      freeMapImage d' = freeMapImage d \<and> writes d' = writes d)"
proof (intro conjI impI)
  assume "FileSystem_Parse d nm True = Inr (None, folder)"
  then show "FileSystem_Create d nm sz = Inr (False, d)" by (rule Create_no_parent)
next
  assume h: "FileSystem_Parse d nm True = Inr (Some parent, folder) \<and> folder \<noteq> [] \<and>
      (Directory_Find (table_at d parent) (last folder) \<noteq> -1 \<or>
       fst (Bitmap_FindAndSet (freeMapImage d)) = -1 \<or>
       \<not> fst (Directory_Add (table_at d parent) (last folder)
                (fst (Bitmap_FindAndSet (freeMapImage d))) False) \<or>
       FileHeader_Allocate (snd (Bitmap_FindAndSet (freeMapImage d))) sz = None)"
  then have p: "FileSystem_Parse d nm True = Inr (Some parent, folder)" and f: "folder \<noteq> []"
    by simp_all
  from h show "FileSystem_Create d nm sz = Inr (False, d)"
    unfolding Create_cases[OF p f] by auto
next
  assume h: "FileSystem_Create d nm sz = Inr (False, d')"
  then have "d' = d" by (rule Create_false_same)
  then show "d' = d" "headerAt d' = headerAt d" "tableOf d' = tableOf d"
    "freeMapImage d' = freeMapImage d" "writes d' = writes d" by simp_all
qed

theorem Create_failure_unchanged_witness:
  "FileSystem_Create formatted_disk ''/x/y'' 10 = Inr (False, formatted_disk) \<and>
   FileSystem_Create built_disk ''/a/b'' 10 = Inr (False, built_disk) \<and>
   FileSystem_Create formatted_disk ''/big'' 1000000 = Inr (False, formatted_disk) \<and>
   Bitmap_Test (snd (Bitmap_FindAndSet (freeMapImage formatted_disk))) 13 \<and>
   \<not> Bitmap_Test (freeMapImage formatted_disk) 13 \<and>
   disk_after (FileSystem_Create built_disk ''/a/b'' 10) = built_disk \<and>
   writes (disk_after (FileSystem_Create built_disk ''/a/b'' 10)) = writes built_disk"
proof -
  have a: "FileSystem_Create formatted_disk ''/x/y'' 10 = Inr (False, formatted_disk)"
    using Create_failure_unchanged[where d = formatted_disk and nm = "''/x/y''"
        and folder = "[''x'', ''y'']" and sz = 10, THEN conjunct1] formatted_parse_xy
    by blast
  have b: "FileSystem_Create built_disk ''/a/b'' 10 = Inr (False, built_disk)"
    using Create_failure_unchanged[where d = built_disk and nm = "''/a/b''"
        and folder = "[''a'', ''b'']" and parent = 13 and sz = 10, THEN conjunct2, THEN conjunct1]
      built_parse_b built_find_b
    by simp
  have c: "FileSystem_Create formatted_disk ''/big'' 1000000 = Inr (False, formatted_disk)"
    using Create_failure_unchanged[where d = formatted_disk and nm = "''/big''"
        and folder = "[''big'']" and parent = 1 and sz = 1000000, THEN conjunct2, THEN conjunct1]
      formatted_parse_big formatted_no_space
    by simp
  have e: "disk_after (FileSystem_Create built_disk ''/a/b'' 10) = built_disk \<and>
      writes (disk_after (FileSystem_Create built_disk ''/a/b'' 10)) = writes built_disk"
    using Create_failure_unchanged[where d = built_disk and nm = "''/a/b''" and sz = 10
        and d' = "disk_after (FileSystem_Create built_disk ''/a/b'' 10)",
        THEN conjunct2, THEN conjunct2] failed_eq[OF create_ab_fails]
    by blast
  from a b c e formatted_no_space show ?thesis by blast
qed

section \<open>RecurRemoveDirectory on the tree of the spec\<close>

text \<open>
  Claim C2, evaluated on the run the claim names. On the disk with \<open>/a\<close> (header in
  sector 13, data in 14 to 23), \<open>/a/b\<close> (header 24, data 25 to 34) and \<open>/a/b/f.txt\<close>
  (header 35, data 36), RecurRemoveDirectory("/a") returns, and afterwards none of the
  three paths opens. In the bitmap it leaves on the disk only the sectors of \<open>/a\<close> itself
  (13 to 23) are free: the sectors of \<open>/a/b\<close> and of \<open>f.txt\<close> (24 to 36) are still
  marked in use. Each level reads the bitmap before it removes its entries and writes
  that copy back afterwards, over the bitmap the removals of the entries had written.
\<close>

theorem RecurRemoveDirectory_leaks_sectors:
  "(case tree_built of
      Inl f \<Rightarrow> False
    | Inr d3 \<Rightarrow>
        Directory_Find (root_table d3) ''a'' = 13 \<and>
        dataSectors (FileHeader_FetchFrom d3 13) = [14 .. 23] \<and>
        Directory_Find (table_at d3 13) ''b'' = 24 \<and>
        dataSectors (FileHeader_FetchFrom d3 24) = [25 .. 34] \<and>
        Directory_Find (table_at d3 24) ''f.txt'' = 35 \<and>
        dataSectors (FileHeader_FetchFrom d3 35) = [36] \<and>
        map (Bitmap_Test (freeMapImage d3)) [13 .. 37] = replicate 24 True @ [False] \<and>
        (case FileSystem_RecurRemoveDirectory d3 ''/a'' of
           Inl f \<Rightarrow> False
         | Inr d4 \<Rightarrow>
             FileSystem_Open d4 ''/a'' = Inr None \<and>
             FileSystem_Open d4 ''/a/b'' = Inr None \<and>
             FileSystem_Open d4 ''/a/b/f.txt'' = Inr None \<and>
             map (Bitmap_Test (freeMapImage d4)) [13 .. 37] =
               replicate 11 False @ replicate 13 True @ [False]))"
  by code_simp

section \<open>Create: the order of the commit\<close>



section \<open>Directory::Add\<close>

text \<open>
  Claim C4. For every table and every (name, sector, isDirectory): \<open>Add\<close> returns false and
  leaves the table unchanged when an entry in use matches the name under the fixed-length
  comparison; otherwise, when no slot is unused, it returns false and leaves the table
  unchanged; otherwise it returns true and the first unused slot (index \<open>i\<close>, every slot
  before it in use) holds the name (copied at the fixed length), the sector and the flag,
  in use. Consequently, for any \<open>C + 1\<close> names that differ under the fixed-length
  comparison, added in order to the empty table of capacity \<open>C\<close>: the first \<open>C\<close> calls
  succeed and the last fails; after removing any one of the \<open>C\<close> names, which succeeds,
  the retried \<open>Add\<close> of the last name succeeds.
\<close>

theorem Directory_Add_spec:
  "((\<exists>e \<in> set table. matches nm e) \<longrightarrow> Directory_Add table nm s d = (False, table)) \<and>
   ((\<forall>e \<in> set table. \<not> matches nm e) \<and> (\<forall>e \<in> set table. inUse e) \<longrightarrow>
      Directory_Add table nm s d = (False, table)) \<and>
   ((\<forall>e \<in> set table. \<not> matches nm e) \<and>
    i < length table \<and> \<not> inUse (table ! i) \<and> (\<forall>j < i. inUse (table ! j)) \<longrightarrow>
      Directory_Add table nm s d = (True, table[i := new_entry nm s d])) \<and>
   (length es = Suc C \<and> distinct (map (\<lambda>e. take FileNameMaxLen (fst e)) es) \<longrightarrow>
      fst (Add_all (Directory C) es) = replicate C True @ [False]) \<and>
   (length es = Suc C \<and> distinct (map (\<lambda>e. take FileNameMaxLen (fst e)) es) \<and> k < C \<longrightarrow>
      fst (Directory_Remove (snd (Add_all (Directory C) (take C es))) (fst (es ! k))) \<and>
      fst (Directory_Add
             (snd (Directory_Remove (snd (Add_all (Directory C) (take C es))) (fst (es ! k))))
             (fst (es ! C)) s' d'))"
proof (intro conjI impI)
  assume "\<exists>e \<in> set table. matches nm e"
  then show "Directory_Add table nm s d = (False, table)" by (simp add: Add_result)
next
  assume "(\<forall>e \<in> set table. \<not> matches nm e) \<and> (\<forall>e \<in> set table. inUse e)"
  then show "Directory_Add table nm s d = (False, table)"
    using first_unused_None[of table] by (simp add: Add_result)
next
  assume h: "(\<forall>e \<in> set table. \<not> matches nm e) \<and>
    i < length table \<and> \<not> inUse (table ! i) \<and> (\<forall>j < i. inUse (table ! j))"
  then have "first_unused table = Some i" by (simp add: first_unused_least)
  with h show "Directory_Add table nm s d = (True, table[i := new_entry nm s d])"
    by (simp add: Add_result)
next
  assume h: "length es = Suc C \<and> distinct (map (\<lambda>e. take FileNameMaxLen (fst e)) es)"
  then show "fst (Add_all (Directory C) es) = replicate C True @ [False]"
    by (simp add: full_run(2))
next
  assume h: "length es = Suc C \<and> distinct (map (\<lambda>e. take FileNameMaxLen (fst e)) es) \<and> k < C"
  then have len: "length es = Suc C"
    and dist: "distinct (map (\<lambda>e. take FileNameMaxLen (fst e)) es)" and k: "k < C"
    by simp_all
  from full_run(1)[OF len dist] retry_after_remove(1)[OF len dist k]
  show "fst (Directory_Remove (snd (Add_all (Directory C) (take C es))) (fst (es ! k)))"
    by simp
next
  assume h: "length es = Suc C \<and> distinct (map (\<lambda>e. take FileNameMaxLen (fst e)) es) \<and> k < C"
  then have len: "length es = Suc C"
    and dist: "distinct (map (\<lambda>e. take FileNameMaxLen (fst e)) es)" and k: "k < C"
    by simp_all
  from full_run(1)[OF len dist] retry_after_remove(2)[OF len dist k, of s' d']
  show "fst (Directory_Add
             (snd (Directory_Remove (snd (Add_all (Directory C) (take C es))) (fst (es ! k))))
             (fst (es ! C)) s' d')"
    by simp
qed

theorem Directory_Add_spec_witness:
  "(\<exists>e \<in> set demo_table. matches ''b'' e) \<and>
   Directory_Add demo_table ''b'' 9 False = (False, demo_table) \<and>
   \<not> (\<exists>e \<in> set (take 2 demo_table). matches ''c'' e) \<and>
   \<not> (\<exists>e \<in> set (take 2 demo_table). \<not> inUse e) \<and>
   Directory_Add (take 2 demo_table) ''c'' 9 False = (False, take 2 demo_table) \<and>
   \<not> (\<exists>e \<in> set demo_table. matches ''c'' e) \<and>
   \<not> inUse (demo_table ! 2) \<and> inUse (demo_table ! 0) \<and> inUse (demo_table ! 1) \<and>
   Directory_Add demo_table ''c'' 9 True = (True, demo_table[2 := new_entry ''c'' 9 True]) \<and>
   length demo_names = Suc 2 \<and>
   distinct (map (\<lambda>e. take FileNameMaxLen (fst e)) demo_names) \<and>
   fst (Add_all (Directory 2) demo_names) = [True, True, False] \<and>
   fst (Directory_Remove (snd (Add_all (Directory 2) (take 2 demo_names))) ''x'') \<and>
   fst (Directory_Add
          (snd (Directory_Remove (snd (Add_all (Directory 2) (take 2 demo_names))) ''x''))
          ''z'' 13 False)"
proof -
  have m1: "\<exists>e \<in> set demo_table. matches ''b'' e"
    by (simp add: demo_table_def matches_def strncmp_eq_def FileNameMaxLen_def)
  have m2: "(\<forall>e \<in> set (take 2 demo_table). \<not> matches ''c'' e) \<and>
      (\<forall>e \<in> set (take 2 demo_table). inUse e)"
    by (simp add: demo_table_def matches_def strncmp_eq_def FileNameMaxLen_def)
  have m3: "\<forall>e \<in> set demo_table. \<not> matches ''c'' e"
    by (simp add: demo_table_def matches_def strncmp_eq_def FileNameMaxLen_def)
  have m4: "2 < length demo_table" "\<not> inUse (demo_table ! 2)" "\<forall>j < 2. inUse (demo_table ! j)"
    by (simp_all add: demo_table_def less_Suc_eq numeral_2_eq_2)
  have m5: "length demo_names = Suc 2" "distinct (map (\<lambda>e. take FileNameMaxLen (fst e)) demo_names)"
    by (simp_all add: demo_names_def FileNameMaxLen_def)
  have m6: "fst (demo_names ! 0) = ''x''" "fst (demo_names ! 2) = ''z''"
    by (simp_all add: demo_names_def)
  have c1: "Directory_Add demo_table ''b'' 9 False = (False, demo_table)"
    using Directory_Add_spec[where table = demo_table and nm = "''b''" and s = 9 and d = False] m1 by blast
  have c2: "Directory_Add (take 2 demo_table) ''c'' 9 False = (False, take 2 demo_table)"
    using Directory_Add_spec[where table = "take 2 demo_table" and nm = "''c''" and s = 9 and d = False] m2 by blast
  have c3: "Directory_Add demo_table ''c'' 9 True = (True, demo_table[2 := new_entry ''c'' 9 True])"
    using Directory_Add_spec[where table = demo_table and nm = "''c''" and i = 2 and s = 9 and d = True] m3 m4 by blast
  have c4: "fst (Add_all (Directory 2) demo_names) = replicate 2 True @ [False] \<and>
      fst (Directory_Remove (snd (Add_all (Directory 2) (take 2 demo_names))) (fst (demo_names ! 0))) \<and>
      fst (Directory_Add
             (snd (Directory_Remove (snd (Add_all (Directory 2) (take 2 demo_names))) (fst (demo_names ! 0))))
             (fst (demo_names ! 2)) 13 False)"
    using Directory_Add_spec[where es = demo_names and C = 2 and k = 0 and s' = 13 and d' = False] m5 by simp
  from m1 m2 m3 m4 m5 c1 c2 c3 c4[unfolded m6] show ?thesis
    by (simp add: numeral_2_eq_2)
qed

section \<open>Remove\<close>



section \<open>The invariant of the table\<close>

text \<open>
  Claim C6. The constructor establishes, and \<open>Add\<close> and \<open>Remove\<close> preserve, the invariant
  of a table of a fixed capacity: the table keeps its capacity, the names of the entries
  in use are pairwise different under the fixed-length comparison, and the number of
  entries in use is at most the capacity.
\<close>

theorem table_inv_preserved:
  "table_inv n (Directory n) \<and>
   (table_inv n table \<longrightarrow> table_inv n (snd (Directory_Add table nm s d))) \<and>
   (table_inv n table \<longrightarrow> table_inv n (snd (Directory_Remove table nm)))"
proof (intro conjI impI)
  show "table_inv n (Directory n)"
  proof -
    have "length (Directory n) = n" by (simp add: Directory_def)
    with in_use_count_le[of "Directory n"] names_unique_Directory[of n]
    show ?thesis by (simp add: table_inv_def)
  qed
next
  assume inv: "table_inv n table"
  then have "length (snd (Directory_Add table nm s d)) = n"
    by (simp add: table_inv_def Add_length)
  moreover from inv have "names_unique (snd (Directory_Add table nm s d))"
    by (simp add: table_inv_def Add_names_unique)
  ultimately show "table_inv n (snd (Directory_Add table nm s d))"
    using in_use_count_le[of "snd (Directory_Add table nm s d)"] by (simp add: table_inv_def)
next
  assume inv: "table_inv n table"
  then have "length (snd (Directory_Remove table nm)) = n"
    by (simp add: table_inv_def Remove_length)
  moreover from inv have "names_unique (snd (Directory_Remove table nm))"
    by (simp add: table_inv_def Remove_names_unique)
  ultimately show "table_inv n (snd (Directory_Remove table nm))"
    using in_use_count_le[of "snd (Directory_Remove table nm)"] by (simp add: table_inv_def)
qed

theorem table_inv_preserved_witness:
  "table_inv 2 (Directory 2) \<and>
   table_inv 2 (snd (Directory_Add (Directory 2) ''a'' 5 False)) \<and>
   table_inv 2 (snd (Directory_Remove (snd (Directory_Add (Directory 2) ''a'' 5 False)) ''a''))"
proof -
  note t = table_inv_preserved[of 2 "Directory 2" "''a''" 5 False]
  from t have a: "table_inv 2 (Directory 2)" by blast
  with t have b: "table_inv 2 (snd (Directory_Add (Directory 2) ''a'' 5 False))" by blast
  with table_inv_preserved[of 2 "snd (Directory_Add (Directory 2) ''a'' 5 False)" "''a''"]
  have "table_inv 2 (snd (Directory_Remove (snd (Directory_Add (Directory 2) ''a'' 5 False)) ''a''))"
    by blast
  with a b show ?thesis by simp
qed

section \<open>Parse\<close>



section \<open>Reporting a parent that does not resolve\<close>




section \<open>Open does not look at the kind of the entry\<close>

text \<open>
  Claim C9. When the parent of a path resolves and the final component is found in the
  parent table, at an entry whose sector is a sector number (not negative), \<open>Open\<close>
  returns the handle over that sector, whether the entry is a directory or a file.
\<close>

theorem Open_no_type_check:
  "FileSystem_Parse d nm True = Inr (Some parent, folder) \<and> folder \<noteq> [] \<and>
   Directory_FindIndex (table_at d parent) (last folder) = i \<and> i \<noteq> -1 \<and>
   0 \<le> sector (table_at d parent ! nat i) \<longrightarrow>
     matches (last folder) (table_at d parent ! nat i) \<and>
     (isDir (table_at d parent ! nat i) \<longrightarrow>
        FileSystem_Open d nm = Inr (Some (sector (table_at d parent ! nat i)))) \<and>
     (\<not> isDir (table_at d parent ! nat i) \<longrightarrow>
        FileSystem_Open d nm = Inr (Some (sector (table_at d parent ! nat i))))"
proof
  assume h: "FileSystem_Parse d nm True = Inr (Some parent, folder) \<and> folder \<noteq> [] \<and>
   Directory_FindIndex (table_at d parent) (last folder) = i \<and> i \<noteq> -1 \<and>
   0 \<le> sector (table_at d parent ! nat i)"
  then have ne: "Directory_FindIndex (table_at d parent) (last folder) \<noteq> -1" by simp
  from FindIndex_hit[OF ne] h have m: "matches (last folder) (table_at d parent ! nat i)"
    by auto
  from h have "Directory_Find (table_at d parent) (last folder) = sector (table_at d parent ! nat i)"
    by (auto simp: Directory_Find_def Let_def)
  with h have "FileSystem_Open d nm = Inr (Some (sector (table_at d parent ! nat i)))"
    by (simp add: Open_cases)
  with m show "matches (last folder) (table_at d parent ! nat i) \<and>
     (isDir (table_at d parent ! nat i) \<longrightarrow>
        FileSystem_Open d nm = Inr (Some (sector (table_at d parent ! nat i)))) \<and>
     (\<not> isDir (table_at d parent ! nat i) \<longrightarrow>
        FileSystem_Open d nm = Inr (Some (sector (table_at d parent ! nat i))))"
    by simp
qed

theorem Open_no_type_check_witness:
  "isDir (table_at built_disk 13 ! 0) \<and> FileSystem_Open built_disk ''/a/b'' = Inr (Some 24) \<and>
   \<not> isDir (table_at built_disk 24 ! 0) \<and> FileSystem_Open built_disk ''/a/b/f.txt'' = Inr (Some 35)"
proof -
  have a: "FileSystem_Open built_disk ''/a/b'' = Inr (Some 24)"
    using Open_no_type_check[where d = built_disk and nm = "''/a/b''" and parent = 13
        and folder = "[''a'', ''b'']" and i = 0] built_parse_b built_findindex_b built_entry_b
    by simp
  have b: "FileSystem_Open built_disk ''/a/b/f.txt'' = Inr (Some 35)"
    using Open_no_type_check[where d = built_disk and nm = "''/a/b/f.txt''" and parent = 24
        and folder = "[''a'', ''b'', ''f.txt'']" and i = 0] built_parse_f built_findindex_f built_entry_f
    by simp
  from a b show ?thesis by (simp add: built_entry_b built_entry_f)
qed

section \<open>Directory::Remove\<close>

text \<open>
  Claim C10. When no entry in use matches the name, \<open>Remove\<close> returns false and the table
  is unchanged. When one does, \<open>Remove\<close> returns true; the slot it changes is the first
  matching one; in that slot \<open>inUse\<close> and \<open>isDir\<close> become false while \<open>name\<close> and
  \<open>sector\<close> stay as they were; the table keeps its length and every other slot is
  unchanged.
\<close>

theorem Directory_Remove_frame:
  "((\<forall>e \<in> set table. \<not> matches nm e) \<longrightarrow> Directory_Remove table nm = (False, table)) \<and>
   ((\<exists>e \<in> set table. matches nm e) \<longrightarrow>
      (let i = nat (Directory_FindIndex table nm);
           table' = snd (Directory_Remove table nm)
       in fst (Directory_Remove table nm) \<and>
          i < length table \<and> matches nm (table ! i) \<and> (\<forall>j < i. \<not> matches nm (table ! j)) \<and>
          length table' = length table \<and>
          \<not> inUse (table' ! i) \<and> \<not> isDir (table' ! i) \<and>
          name (table' ! i) = name (table ! i) \<and> sector (table' ! i) = sector (table ! i) \<and>
          (\<forall>j < length table. j \<noteq> i \<longrightarrow> table' ! j = table ! j)))"
proof (intro conjI impI)
  assume "\<forall>e \<in> set table. \<not> matches nm e"
  then have "Directory_FindIndex table nm = -1" using FindIndex_none[of table nm] by blast
  then show "Directory_Remove table nm = (False, table)" by (simp add: Remove_result)
next
  assume "\<exists>e \<in> set table. matches nm e"
  then have ne: "Directory_FindIndex table nm \<noteq> -1" using FindIndex_none[of table nm] by blast
  have rng: "nat (Directory_FindIndex table nm) < length table"
    using FindIndex_range[OF ne] by linarith
  from FindIndex_hit[OF ne] rng ne
  show "let i = nat (Directory_FindIndex table nm);
            table' = snd (Directory_Remove table nm)
        in fst (Directory_Remove table nm) \<and>
           i < length table \<and> matches nm (table ! i) \<and> (\<forall>j < i. \<not> matches nm (table ! j)) \<and>
           length table' = length table \<and>
           \<not> inUse (table' ! i) \<and> \<not> isDir (table' ! i) \<and>
           name (table' ! i) = name (table ! i) \<and> sector (table' ! i) = sector (table ! i) \<and>
           (\<forall>j < length table. j \<noteq> i \<longrightarrow> table' ! j = table ! j)"
    by (simp add: Remove_result Let_def)
qed

theorem Directory_Remove_frame_witness:
  "\<not> (\<exists>e \<in> set demo_table. matches ''zz'' e) \<and>
   Directory_Remove demo_table ''zz'' = (False, demo_table) \<and>
   (\<exists>e \<in> set demo_table. matches ''b'' e) \<and>
   nat (Directory_FindIndex demo_table ''b'') = 1 \<and>
   fst (Directory_Remove demo_table ''b'') \<and>
   \<not> inUse (snd (Directory_Remove demo_table ''b'') ! 1) \<and>
   \<not> isDir (snd (Directory_Remove demo_table ''b'') ! 1) \<and>
   name (snd (Directory_Remove demo_table ''b'') ! 1) = ''b'' \<and>
   sector (snd (Directory_Remove demo_table ''b'') ! 1) = 7 \<and>
   snd (Directory_Remove demo_table ''b'') ! 0 = demo_table ! 0 \<and>
   snd (Directory_Remove demo_table ''b'') ! 2 = demo_table ! 2"
proof -
  have none: "\<forall>e \<in> set demo_table. \<not> matches ''zz'' e"
    by (simp add: demo_table_def matches_def strncmp_eq_def FileNameMaxLen_def)
  have some: "\<exists>e \<in> set demo_table. matches ''b'' e"
    by (simp add: demo_table_def matches_def strncmp_eq_def FileNameMaxLen_def)
  have idx: "nat (Directory_FindIndex demo_table ''b'') = 1"
    by (simp add: demo_table_def Directory_FindIndex_def strncmp_eq_def FileNameMaxLen_def)
  have len: "length demo_table = 3" and at1: "demo_table ! 1 = \<lparr>inUse = True, isDir = True, sector = 7, name = ''b''\<rparr>"
    by (simp_all add: demo_table_def)
  from Directory_Remove_frame[of demo_table "''zz''"] none
  have a: "Directory_Remove demo_table ''zz'' = (False, demo_table)" by blast
  note c = Directory_Remove_frame[of demo_table "''b''", THEN conjunct2, THEN mp, OF some,
      unfolded Let_def idx len at1]
  from c have "\<forall>j < 3. j \<noteq> 1 \<longrightarrow> snd (Directory_Remove demo_table ''b'') ! j = demo_table ! j"
    by blast
  then have "snd (Directory_Remove demo_table ''b'') ! 0 = demo_table ! 0"
    "snd (Directory_Remove demo_table ''b'') ! 2 = demo_table ! 2" by simp_all
  with a c none some idx show ?thesis by simp
qed

end
